theory Spec2Isabelle
  imports Complex_Main
begin

section \<open>Data model\<close>

text \<open>
  The client works on JSON records delivered by the record store. A field that may be
  \<^verbatim>\<open>null\<close> or missing is an \<open>option\<close>; JavaScript numbers are modelled as exact
  integers where the code only ever holds whole numbers (minutes, ratings, counters) and
  as exact rationals where it divides or multiplies by a fraction. The system load is the
  exception: its rounded percentage depends on the rounding of IEEE doubles, and it is
  computed on the doubles of the section on double-precision numbers.
\<close>

datatype work_type = Deep | Shallow | Maintenance | Recovery | Unknown

record session_context =
  work_type :: work_type

record outcome_t =
  progress_rating :: int
  quality_rating :: int
  focus_quality :: int

record after_state =
  energy :: int
  stress :: int

record session =
  start_time :: int
  sess_context :: session_context
  duration_minutes :: "int option"
  outcome :: "outcome_t option"
  after :: "after_state option"

record sleep =
  sleep_duration_minutes :: int
  sleep_quality :: int

record intake =
  water_count :: int
  breakfast_time :: "string option"
  lunch_time :: "string option"
  dinner_time :: "string option"

text \<open>\<^verbatim>\<open>x || 0\<close> on a number that may be \<^verbatim>\<open>null\<close>.\<close>

definition or_zero :: "int option \<Rightarrow> int" where
  "or_zero x = (case x of None \<Rightarrow> 0 | Some n \<Rightarrow> n)"

text \<open>\<^verbatim>\<open>Boolean(t)\<close> on a timestamp string that may be \<^verbatim>\<open>null\<close>: the empty string is falsy.\<close>

definition Boolean_js :: "string option \<Rightarrow> bool" where
  "Boolean_js t = (case t of None \<Rightarrow> False | Some s \<Rightarrow> s \<noteq> [])"

text \<open>\<^verbatim>\<open>Math.round\<close> rounds to the nearest integer, a half towards plus infinity.\<close>

definition js_round :: "rat \<Rightarrow> int" where
  "js_round x = \<lfloor>x + 1 / 2\<rfloor>"

section \<open>Scoring engine\<close>

subsection \<open>\<^verbatim>\<open>getSessionScore\<close>\<close>

definition getSessionScore :: "session \<Rightarrow> rat" where
  "getSessionScore s =
     (case outcome s of
        None \<Rightarrow> 0
      | Some oc \<Rightarrow>
          let score = (of_int (progress_rating oc) * 2) + (of_int (focus_quality oc) * 1.5)
                      + (of_int (quality_rating oc) * 1)
          in min 100 ((score / 22.5) * 100))"

subsection \<open>\<^verbatim>\<open>calculateFallbackScore\<close>\<close>

text \<open>
  The focus of a session that passed the \<^verbatim>\<open>s.outcome\<close> filter; the \<open>None\<close> branch is
  never reached behind that filter.
\<close>

definition outcome_focus :: "session \<Rightarrow> int" where
  "outcome_focus s = (case outcome s of None \<Rightarrow> 0 | Some oc \<Rightarrow> focus_quality oc)"

text \<open>The three blocks of the function body, each taking the running \<^verbatim>\<open>score\<close>.\<close>

definition add_output_points :: "session list \<Rightarrow> int \<Rightarrow> int" where
  "add_output_points sessions score =
     (let deepMins = foldl (\<lambda>acc s. acc + or_zero (duration_minutes s)) 0
                       (filter (\<lambda>s. work_type (sess_context s) = Deep) sessions)
      in score + min 60 \<lfloor>(of_int deepMins :: rat) / 5\<rfloor>)"

definition add_sleep_points :: "sleep option \<Rightarrow> int \<Rightarrow> int" where
  "add_sleep_points slp score =
     (case slp of
        None \<Rightarrow> score
      | Some sl \<Rightarrow>
          let score = (if sleep_duration_minutes sl \<ge> 420 then score + 10
                       else if sleep_duration_minutes sl \<ge> 360 then score + 5
                       else score)
          in (if sleep_quality sl \<ge> 4 then score + 10 else score))"

definition add_efficiency_points :: "session list \<Rightarrow> int \<Rightarrow> int" where
  "add_efficiency_points sessions score =
     (let sessionsWithOutcome = filter (\<lambda>s. outcome s \<noteq> None) sessions
      in if length sessionsWithOutcome > 0
         then
           let avgFocus = (of_int (foldl (\<lambda>acc s. acc + outcome_focus s) 0
                                      sessionsWithOutcome) :: rat)
                          / of_nat (length sessionsWithOutcome)
           in score + \<lfloor>avgFocus * 4\<rfloor>
         else score)"

definition calculateFallbackScore :: "session list \<Rightarrow> sleep option \<Rightarrow> int" where
  "calculateFallbackScore sessions slp =
     (if sessions = [] \<and> slp = None then 0
      else
        let score = 0;
            score = add_output_points sessions score;
            score = add_sleep_points slp score;
            score = add_efficiency_points sessions score
        in min 100 score)"

subsection \<open>\<^verbatim>\<open>calculateIntakePoints\<close> and the extended score\<close>

definition calculateIntakePoints :: "intake option \<Rightarrow> int" where
  "calculateIntakePoints intk =
     (case intk of
        None \<Rightarrow> 0
      | Some i \<Rightarrow>
          let points = 0 + min 5 \<lfloor>(of_int (water_count i) :: rat) / 2\<rfloor>;
              mealsLogged = int (length (filter Boolean_js
                                  [breakfast_time i, lunch_time i, dinner_time i]));
              points = points + mealsLogged * 5
          in min 20 points)"

definition extendedLiveScore :: "rat \<Rightarrow> intake option \<Rightarrow> rat" where
  "extendedLiveScore liveScore todayIntake =
     min 100 (liveScore + of_int (calculateIntakePoints todayIntake))"

subsection \<open>Double-precision numbers\<close>

text \<open>
  A JavaScript number is an IEEE 754 binary64 value: a rational number of the form
  \<open>m * 2^e\<close> with \<open>\<bar>m\<bar> < 2^53\<close>, an infinity, or NaN. The sign of zero is not modelled; it
  cannot be seen in an integer result.
\<close>

datatype double = Finite rat | PosInf | NegInf | NotANumber

text \<open>The number of binary digits of a natural number.\<close>

function bit_length :: "nat \<Rightarrow> nat" where
  "bit_length n = (if n = 0 then 0 else Suc (bit_length (n div 2)))"
  by pat_completeness auto
termination
  by (relation "measure (\<lambda>n. n)") auto

declare bit_length.simps [simp del]

text \<open>\<open>2\<close> to an integer power.\<close>

definition pow2 :: "int \<Rightarrow> rat" where
  "pow2 k = (if 0 \<le> k then 2 ^ nat k else 1 / 2 ^ nat (- k))"

text \<open>
  For a positive \<open>x\<close>, the \<open>e\<close> with \<open>2^e \<le> x < 2^(e+1)\<close>: from the digits of the whole
  part of \<open>x\<close> when \<open>x \<ge> 1\<close>, from those of its reciprocal otherwise.
\<close>

definition binary_exponent :: "rat \<Rightarrow> int" where
  "binary_exponent x =
     (if 1 \<le> x then int (bit_length (nat \<lfloor>x\<rfloor>)) - 1
      else - int (bit_length (nat (\<lceil>1 / x\<rceil> - 1))))"

text \<open>The nearest integer; a half goes to the even neighbour.\<close>

definition round_half_even :: "rat \<Rightarrow> int" where
  "round_half_even y =
     (let f = \<lfloor>y\<rfloor>; r = y - of_int f
      in if r < 1 / 2 then f
         else if 1 / 2 < r then f + 1
         else if even f then f else f + 1)"

text \<open>
  The double nearest to a rational number (round to nearest, ties to even): the magnitude
  is rounded to a multiple of the spacing \<open>2^(e-52)\<close> of its binade, where \<open>e\<close> is not
  taken below the exponent -1022 of the subnormal numbers, and a result of \<open>2^1024\<close> or
  more overflows to infinity.
\<close>

definition to_double :: "rat \<Rightarrow> double" where
  "to_double x =
     (if x = 0 then Finite 0
      else
        let a = \<bar>x\<bar>;
            e = max (binary_exponent a) (- 1022);
            q = pow2 (e - 52);
            r = of_int (round_half_even (a / q)) * q
        in if pow2 1024 \<le> r then (if 0 < x then PosInf else NegInf)
           else Finite (if 0 < x then r else - r))"

text \<open>
  Negation, \<^verbatim>\<open>+\<close>, \<^verbatim>\<open>-\<close>, \<^verbatim>\<open>*\<close> and \<^verbatim>\<open>/\<close> on doubles: the exact result,
  rounded; with the rules of IEEE 754 for infinities and NaN.
\<close>

fun fneg :: "double \<Rightarrow> double" where
  "fneg (Finite a) = Finite (- a)"
| "fneg PosInf = NegInf"
| "fneg NegInf = PosInf"
| "fneg NotANumber = NotANumber"

fun fadd :: "double \<Rightarrow> double \<Rightarrow> double" where
  "fadd (Finite a) (Finite b) = to_double (a + b)"
| "fadd NotANumber y = NotANumber"
| "fadd x NotANumber = NotANumber"
| "fadd PosInf NegInf = NotANumber"
| "fadd NegInf PosInf = NotANumber"
| "fadd PosInf y = PosInf"
| "fadd NegInf y = NegInf"
| "fadd x PosInf = PosInf"
| "fadd x NegInf = NegInf"

definition fsub :: "double \<Rightarrow> double \<Rightarrow> double" where
  "fsub x y = fadd x (fneg y)"

fun fmul :: "double \<Rightarrow> double \<Rightarrow> double" where
  "fmul (Finite a) (Finite b) = to_double (a * b)"
| "fmul NotANumber y = NotANumber"
| "fmul x NotANumber = NotANumber"
| "fmul PosInf (Finite b) = (if b = 0 then NotANumber else if 0 < b then PosInf else NegInf)"
| "fmul NegInf (Finite b) = (if b = 0 then NotANumber else if 0 < b then NegInf else PosInf)"
| "fmul (Finite a) PosInf = (if a = 0 then NotANumber else if 0 < a then PosInf else NegInf)"
| "fmul (Finite a) NegInf = (if a = 0 then NotANumber else if 0 < a then NegInf else PosInf)"
| "fmul PosInf PosInf = PosInf"
| "fmul NegInf NegInf = PosInf"
| "fmul PosInf NegInf = NegInf"
| "fmul NegInf PosInf = NegInf"

fun fdiv :: "double \<Rightarrow> double \<Rightarrow> double" where
  "fdiv (Finite a) (Finite b) =
     (if b = 0 then (if a = 0 then NotANumber else if 0 < a then PosInf else NegInf)
      else to_double (a / b))"
| "fdiv NotANumber y = NotANumber"
| "fdiv x NotANumber = NotANumber"
| "fdiv (Finite a) PosInf = Finite 0"
| "fdiv (Finite a) NegInf = Finite 0"
| "fdiv PosInf (Finite b) = (if 0 \<le> b then PosInf else NegInf)"
| "fdiv NegInf (Finite b) = (if 0 \<le> b then NegInf else PosInf)"
| "fdiv PosInf y = NotANumber"
| "fdiv NegInf y = NotANumber"

text \<open>
  \<^verbatim>\<open>Math.round\<close> gives the nearest integer, a half going up; \<^verbatim>\<open>Math.min\<close> and
  \<^verbatim>\<open>Math.max\<close> give NaN when an argument is NaN.
\<close>

fun Math_round :: "double \<Rightarrow> double" where
  "Math_round (Finite x) = Finite (of_int \<lfloor>x + 1 / 2\<rfloor>)"
| "Math_round x = x"

fun Math_min2 :: "double \<Rightarrow> double \<Rightarrow> double" where
  "Math_min2 (Finite a) (Finite b) = Finite (min a b)"
| "Math_min2 NotANumber y = NotANumber"
| "Math_min2 x NotANumber = NotANumber"
| "Math_min2 NegInf y = NegInf"
| "Math_min2 x NegInf = NegInf"
| "Math_min2 PosInf y = y"
| "Math_min2 x PosInf = x"

fun Math_max2 :: "double \<Rightarrow> double \<Rightarrow> double" where
  "Math_max2 (Finite a) (Finite b) = Finite (max a b)"
| "Math_max2 NotANumber y = NotANumber"
| "Math_max2 x NotANumber = NotANumber"
| "Math_max2 PosInf y = PosInf"
| "Math_max2 x PosInf = PosInf"
| "Math_max2 NegInf y = y"
| "Math_max2 x NegInf = x"

subsection \<open>\<^verbatim>\<open>calculateSystemLoad\<close>\<close>

text \<open>\<^verbatim>\<open>s.duration_minutes || 0\<close>, the number read from the JSON record.\<close>

definition duration_number :: "session \<Rightarrow> double" where
  "duration_number s = to_double (of_int (or_zero (duration_minutes s)))"

definition load_step :: "double \<Rightarrow> session \<Rightarrow> double" where
  "load_step loadMinutes s =
     (case outcome s of
        None \<Rightarrow> loadMinutes
      | Some _ \<Rightarrow>
          let duration = duration_number s in
          if work_type (sess_context s) = Deep
          then fadd loadMinutes (fmul duration (to_double 1.0))
          else if work_type (sess_context s) = Shallow
          then fadd loadMinutes (fmul duration (to_double 0.3))
          else if work_type (sess_context s) = Recovery
          then fsub loadMinutes (fmul duration (to_double 0.5))
          else loadMinutes)"

definition calculateSystemLoad :: "session list \<Rightarrow> double" where
  "calculateSystemLoad sessions =
     (let loadMinutes = foldl load_step (Finite 0) sessions
      in Math_max2 (Finite 0)
           (Math_min2 (Finite 100)
              (Math_round (fmul (fdiv loadMinutes (Finite 240)) (Finite 100)))))"

section \<open>Date helpers\<close>

text \<open>
  A calendar date is the number of days since 1970-01-01, a Thursday, so that
  \<^verbatim>\<open>getDay\<close> (0 = Sunday .. 6 = Saturday) is \<open>(d + 4) mod 7\<close>. \<^verbatim>\<open>setDate\<close> with a day of
  month outside the month rolls over into the neighbouring months, so
  \<^verbatim>\<open>m.setDate(d.getDate() + k)\<close> is the date \<open>k\<close> days later. The local calendar day and
  the UTC day printed by \<^verbatim>\<open>toISOString\<close> are taken to coincide.
\<close>

definition getDay :: "int \<Rightarrow> int" where
  "getDay d = (d + 4) mod 7"

definition mondayOfWeek :: "int \<Rightarrow> int" where
  "mondayOfWeek d =
     (let day = getDay d;
          diff = (if day = 0 then - 6 else 1) - day
      in d + diff)"

text \<open>
  The two bound strings of the sleep form: blank, not a date, or a date with its epoch
  milliseconds. \<^verbatim>\<open>Math.max(0, NaN)\<close> is \<^verbatim>\<open>NaN\<close>.
\<close>

datatype time_input = Blank | Unparsable | Stamp int

datatype js_number = NaN | Num int

definition calculateDuration :: "time_input \<Rightarrow> time_input \<Rightarrow> js_number" where
  "calculateDuration s e =
     (if s = Blank \<or> e = Blank then Num 0
      else case (s, e) of
             (Stamp a, Stamp b) \<Rightarrow>
               (let diff = b - a in Num (max 0 \<lfloor>(of_int diff :: rat) / 1000 / 60\<rfloor>))
           | _ \<Rightarrow> NaN)"

section \<open>Calendar heatmap\<close>


















section \<open>Dashboard: starting a session\<close>









section \<open>Sleep versus deep work\<close>

text \<open>
  The rows of the series as the client receives them, and the two views of them:
  \<^verbatim>\<open>renderSleepVsDeepwork\<close> (the data handed to the line chart and the lines of the text
  table) and the bar chart of the analytics page (per day a bar, an optional sleep dot and a
  tooltip). \<^verbatim>\<open>String(n)\<close> prints a whole number in decimal.
\<close>

record svd_row =
  row_date :: string
  sleep_minutes :: "int option"
  deep_minutes :: int

definition digit_char :: "nat \<Rightarrow> char" where
  "digit_char n = ''0123456789'' ! n"

function String_nat :: "nat \<Rightarrow> string" where
  "String_nat n =
     (if n < 10 then [digit_char n] else String_nat (n div 10) @ [digit_char (n mod 10)])"
  by pat_completeness auto
termination
  by (relation "measure (\<lambda>n. n)") auto

declare String_nat.simps [simp del]

definition String_js :: "int \<Rightarrow> string" where
  "String_js i = (if i < 0 then CHR ''-'' # String_nat (nat (- i)) else String_nat (nat i))"

definition padStart :: "nat \<Rightarrow> char \<Rightarrow> string \<Rightarrow> string" where
  "padStart targetLength c s = replicate (targetLength - length s) c @ s"

record svd_chart =
  labels :: "string list"
  sleep_data :: "int option list"
  deep_data :: "int list"

definition svd_line :: "svd_row \<Rightarrow> string" where
  "svd_line row =
     (let d = row_date row;
          s = (case sleep_minutes row of
                 None \<Rightarrow> ''  -''
               | Some m \<Rightarrow> padStart 4 CHR '' '' (String_js m));
          w = padStart 4 CHR '' '' (String_js (deep_minutes row))
      in d @ ''   '' @ s @ ''  '' @ w)"

definition renderSleepVsDeepwork :: "svd_row list \<Rightarrow> svd_chart \<times> string list" where
  "renderSleepVsDeepwork data =
     (let labels = map row_date data;
          sleep = map sleep_minutes data;
          deep = map deep_minutes data;
          svdChart = \<lparr>labels = labels, sleep_data = sleep, deep_data = deep\<rparr>;
          lines = [''Date        Sleep  Deep''] @ map svd_line data
      in (svdChart, lines))"

definition scaleY :: "int \<Rightarrow> int \<Rightarrow> rat" where
  "scaleY mins maxMins = (if mins = 0 then 0 else (of_int mins / of_int maxMins) * 100)"

text \<open>\<^verbatim>\<open>Math.max(...xs, x)\<close>.\<close>

definition Math_max :: "int list \<Rightarrow> int \<Rightarrow> int" where
  "Math_max xs x = foldl max x xs"

record day_column =
  bar_height :: rat
  sleep_dot :: "rat option"
  tooltip :: "string list"

definition analytics_day :: "int \<Rightarrow> int \<Rightarrow> svd_row \<Rightarrow> day_column" where
  "analytics_day maxSleep maxDeep day =
     \<lparr>bar_height = scaleY (deep_minutes day) maxDeep,
      sleep_dot = (case sleep_minutes day of
                     None \<Rightarrow> None
                   | Some m \<Rightarrow> if m \<noteq> 0 then Some (scaleY m maxSleep) else None),
      tooltip = [row_date day,
                 ''Sleep: '' @ String_js (or_zero (sleep_minutes day)) @ ''m'',
                 ''Deep: '' @ String_js (deep_minutes day) @ ''m'']\<rparr>"

definition analytics_chart :: "svd_row list \<Rightarrow> day_column list" where
  "analytics_chart sleepVsWork =
     (if length sleepVsWork > 0
      then
        let maxSleep = Math_max (map (\<lambda>d. or_zero (sleep_minutes d)) sleepVsWork) 600;
            maxDeep = Math_max (map deep_minutes sleepVsWork) 300
        in map (analytics_day maxSleep maxDeep) sleepVsWork
      else [])"

section \<open>Biological Engine intake panel\<close>

text \<open>
  The panel holds the day's intake record and \<^verbatim>\<open>confirmMode\<close>, the pending confirmation
  (\<open>None\<close> when the dialog is closed). The buttons call \<^verbatim>\<open>requestWater\<close>,
  \<^verbatim>\<open>requestRemoveWater\<close> and \<^verbatim>\<open>requestMeal\<close>; the dialog offers Cancel and Confirm.
  \<^verbatim>\<open>confirmAction\<close> updates the record first and then awaits the POST; \<^verbatim>\<open>post\<close> throws on a
  failed request, and the function is then left before it reaches
  \<^verbatim>\<open>confirmMode = null\<close>, so the dialog stays open on the updated record. Removing a glass
  sends no request.
\<close>

datatype meal = Breakfast | Lunch | Dinner

datatype confirm_mode = Water_add | Water_remove | Meal_add meal

datatype post_result = Resolved | Rejected

record panel =
  panel_intake :: intake
  confirmMode :: "confirm_mode option"

definition meal_time :: "meal \<Rightarrow> intake \<Rightarrow> string option" where
  "meal_time m i =
     (case m of Breakfast \<Rightarrow> breakfast_time i | Lunch \<Rightarrow> lunch_time i
              | Dinner \<Rightarrow> dinner_time i)"

definition set_meal_time :: "meal \<Rightarrow> string \<Rightarrow> intake \<Rightarrow> intake" where
  "set_meal_time m t i =
     (case m of Breakfast \<Rightarrow> i\<lparr>breakfast_time := Some t\<rparr>
              | Lunch \<Rightarrow> i\<lparr>lunch_time := Some t\<rparr>
              | Dinner \<Rightarrow> i\<lparr>dinner_time := Some t\<rparr>)"

definition requestWater :: "panel \<Rightarrow> panel" where
  "requestWater st =
     (if water_count (panel_intake st) \<ge> 8 then st
      else st\<lparr>confirmMode := Some Water_add\<rparr>)"

definition requestRemoveWater :: "panel \<Rightarrow> panel" where
  "requestRemoveWater st =
     (if water_count (panel_intake st) \<le> 0 then st
      else st\<lparr>confirmMode := Some Water_remove\<rparr>)"

definition requestMeal :: "meal \<Rightarrow> panel \<Rightarrow> panel" where
  "requestMeal m st =
     (if Boolean_js (meal_time m (panel_intake st)) then st
      else st\<lparr>confirmMode := Some (Meal_add m)\<rparr>)"

definition cancel :: "panel \<Rightarrow> panel" where
  "cancel st = st\<lparr>confirmMode := None\<rparr>"

text \<open>
  \<^verbatim>\<open>confirmAction\<close> runs in two parts. The first runs on the click, up to the
  \<^verbatim>\<open>await\<close>: it updates the record and, for an added glass or a meal, sends the POST
  (the flag returned says that a request is pending; removing a glass sends none and
  closes the dialog at once). The second part runs when the request settles: it
  closes the dialog if the request succeeded, and does nothing if \<^verbatim>\<open>post\<close> threw.
\<close>

definition confirmAction_click :: "string \<Rightarrow> panel \<Rightarrow> panel \<times> bool" where
  "confirmAction_click now st =
     (case confirmMode st of
        None \<Rightarrow> (st, False)
      | Some Water_add \<Rightarrow>
          (st\<lparr>panel_intake :=
                (panel_intake st)\<lparr>water_count := water_count (panel_intake st) + 1\<rparr>\<rparr>,
           True)
      | Some Water_remove \<Rightarrow>
          (let st = st\<lparr>panel_intake :=
                       (panel_intake st)\<lparr>water_count := water_count (panel_intake st) - 1\<rparr>\<rparr>
           in (st\<lparr>confirmMode := None\<rparr>, False))
      | Some (Meal_add m) \<Rightarrow>
          (st\<lparr>panel_intake := set_meal_time m now (panel_intake st)\<rparr>, True))"

definition confirmAction_settled :: "post_result \<Rightarrow> panel \<Rightarrow> panel" where
  "confirmAction_settled post st =
     (case post of Rejected \<Rightarrow> st | Resolved \<Rightarrow> st\<lparr>confirmMode := None\<rparr>)"

text \<open>A click on Confirm whose request settles before anything else happens.\<close>

definition confirmAction :: "post_result \<Rightarrow> string \<Rightarrow> panel \<Rightarrow> panel" where
  "confirmAction post now st =
     (let (st, pending) = confirmAction_click now st
      in if pending then confirmAction_settled post st else st)"

text \<open>
  The events of the panel. \<open>ConfirmAction\<close> is a click on Confirm together with the
  settling of its request; \<open>ConfirmClick\<close> and \<open>PostSettled\<close> are the two parts on their
  own, for a second click that arrives while a request is still pending.
\<close>

datatype panel_event =
    RequestWater | RequestRemoveWater | RequestMeal meal | Cancel
  | ConfirmAction post_result string
  | ConfirmClick string
  | PostSettled post_result

fun panel_step :: "panel \<Rightarrow> panel_event \<Rightarrow> panel" where
  "panel_step st RequestWater = requestWater st"
| "panel_step st RequestRemoveWater = requestRemoveWater st"
| "panel_step st (RequestMeal m) = requestMeal m st"
| "panel_step st Cancel = cancel st"
| "panel_step st (ConfirmAction post now) = confirmAction post now st"
| "panel_step st (ConfirmClick now) = fst (confirmAction_click now st)"
| "panel_step st (PostSettled post) = confirmAction_settled post st"

definition run_panel :: "panel \<Rightarrow> panel_event list \<Rightarrow> panel" where
  "run_panel st events = foldl panel_step st events"

section \<open>Example records\<close>

text \<open>
  A day with three rated sessions (120 Deep, 100 Shallow and 40 Recovery minutes, in start
  order) and a fourth, Deep session that is still running.
\<close>

definition example_day :: "session list" where
  "example_day =
     [\<lparr>start_time = 1735718400000, sess_context = \<lparr>work_type = Deep\<rparr>,
       duration_minutes = Some 120,
       outcome = Some \<lparr>progress_rating = 4, quality_rating = 4, focus_quality = 5\<rparr>,
       after = Some \<lparr>energy = 6, stress = 3\<rparr>\<rparr>,
      \<lparr>start_time = 1735729200000, sess_context = \<lparr>work_type = Shallow\<rparr>,
       duration_minutes = Some 100,
       outcome = Some \<lparr>progress_rating = 3, quality_rating = 3, focus_quality = 3\<rparr>,
       after = Some \<lparr>energy = 5, stress = 4\<rparr>\<rparr>,
      \<lparr>start_time = 1735736400000, sess_context = \<lparr>work_type = Recovery\<rparr>,
       duration_minutes = Some 40,
       outcome = Some \<lparr>progress_rating = 3, quality_rating = 3, focus_quality = 2\<rparr>,
       after = Some \<lparr>energy = 8, stress = 2\<rparr>\<rparr>,
      \<lparr>start_time = 1735740000000, sess_context = \<lparr>work_type = Deep\<rparr>,
       duration_minutes = None, outcome = None, after = None\<rparr>]"

text \<open>
  Four days of one session each: a Deep session of 240 minutes that has no outcome, a
  rated Shallow session of 12 minutes, a rated Deep session of 139 minutes and a rated
  Deep session of 240 minutes.
\<close>

definition example_unrated :: "session list" where
  "example_unrated =
     [\<lparr>start_time = 1735718400000, sess_context = \<lparr>work_type = Deep\<rparr>,
       duration_minutes = Some 240, outcome = None, after = None\<rparr>]"

definition example_shallow :: "session list" where
  "example_shallow =
     [\<lparr>start_time = 1735718400000, sess_context = \<lparr>work_type = Shallow\<rparr>,
       duration_minutes = Some 12,
       outcome = Some \<lparr>progress_rating = 3, quality_rating = 3, focus_quality = 3\<rparr>,
       after = Some \<lparr>energy = 6, stress = 4\<rparr>\<rparr>]"

definition example_deep :: "session list" where
  "example_deep =
     [\<lparr>start_time = 1735718400000, sess_context = \<lparr>work_type = Deep\<rparr>,
       duration_minutes = Some 139,
       outcome = Some \<lparr>progress_rating = 4, quality_rating = 4, focus_quality = 4\<rparr>,
       after = Some \<lparr>energy = 5, stress = 4\<rparr>\<rparr>]"

definition example_full :: "session list" where
  "example_full =
     [\<lparr>start_time = 1735718400000, sess_context = \<lparr>work_type = Deep\<rparr>,
       duration_minutes = Some 240,
       outcome = Some \<lparr>progress_rating = 5, quality_rating = 4, focus_quality = 4\<rparr>,
       after = Some \<lparr>energy = 4, stress = 5\<rparr>\<rparr>]"

text \<open>A sleep of 7 hours 10 minutes, rated 4.\<close>

definition example_sleep :: sleep where
  "example_sleep = \<lparr>sleep_duration_minutes = 430, sleep_quality = 4\<rparr>"

text \<open>Ten glasses of water and all three meals logged.\<close>

definition example_intake :: intake where
  "example_intake =
     \<lparr>water_count = 10, breakfast_time = Some ''2025-01-01T07:30:00.000Z'',
      lunch_time = Some ''2025-01-01T12:10:00.000Z'',
      dinner_time = Some ''2025-01-01T19:00:00.000Z''\<rparr>"




text \<open>The panel with seven glasses logged and no dialog open.\<close>

definition example_panel :: panel where
  "example_panel =
     \<lparr>panel_intake = \<lparr>water_count = 7, breakfast_time = None, lunch_time = None,
                       dinner_time = None\<rparr>,
      confirmMode = None\<rparr>"

section \<open>The scoring rules as the specification words them\<close>

text \<open>
  These definitions follow the wording of the specification, not the code; the theorems
  below compare them with the functions above.
\<close>

definition rated_sessions :: "session list \<Rightarrow> session list" where
  "rated_sessions sessions = filter (\<lambda>s. outcome s \<noteq> None) sessions"

definition total_deep_work_minutes :: "session list \<Rightarrow> int" where
  "total_deep_work_minutes sessions =
     sum_list (map (\<lambda>s. or_zero (duration_minutes s))
                 (filter (\<lambda>s. work_type (sess_context s) = Deep) sessions))"

definition output_component :: "session list \<Rightarrow> int" where
  "output_component sessions = min 60 (total_deep_work_minutes sessions div 5)"

definition input_component :: "sleep option \<Rightarrow> int" where
  "input_component slp =
     (case slp of
        None \<Rightarrow> 0
      | Some sl \<Rightarrow>
          (if sleep_duration_minutes sl \<ge> 420 then 10
           else if sleep_duration_minutes sl \<ge> 360 then 5 else 0)
          + (if sleep_quality sl \<ge> 4 then 10 else 0))"

definition average_focus_quality :: "session list \<Rightarrow> rat" where
  "average_focus_quality sessions =
     of_int (sum_list (map outcome_focus (rated_sessions sessions)))
     / of_nat (length (rated_sessions sessions))"

definition efficiency_component :: "session list \<Rightarrow> int" where
  "efficiency_component sessions =
     (if rated_sessions sessions = [] then 0
      else \<lfloor>average_focus_quality sessions * 4\<rfloor>)"

definition count_of_meals_logged :: "intake \<Rightarrow> int" where
  "count_of_meals_logged i =
     (if Boolean_js (breakfast_time i) then 1 else 0)
     + (if Boolean_js (lunch_time i) then 1 else 0)
     + (if Boolean_js (dinner_time i) then 1 else 0)"

text \<open>
  The system load as the claim words it, read in exact arithmetic and over all the
  sessions of the day.
\<close>

definition load_weight :: "work_type \<Rightarrow> rat" where
  "load_weight w =
     (case w of Deep \<Rightarrow> 1.0 | Shallow \<Rightarrow> 0.3 | Recovery \<Rightarrow> - 0.5 | _ \<Rightarrow> 0)"

definition accumulated_load :: "session list \<Rightarrow> rat" where
  "accumulated_load sessions =
     sum_list (map (\<lambda>s. of_int (or_zero (duration_minutes s))
                          * load_weight (work_type (sess_context s))) sessions)"

definition load_percentage :: "rat \<Rightarrow> int" where
  "load_percentage minutes = max 0 (min 100 (js_round (minutes / 240 * 100)))"

text \<open>
  The system load as amended: the sessions that count are those with an outcome and a
  work type that carries load; each adds its duration times the factor of its type, a
  product and a sum of doubles; the percentage is the sum divided by 240 and multiplied by
  100, again in doubles.
\<close>

definition load_bearing :: "session \<Rightarrow> bool" where
  "load_bearing s =
     (outcome s \<noteq> None \<and> work_type (sess_context s) \<in> {Deep, Shallow, Recovery})"

definition load_factor :: "work_type \<Rightarrow> double" where
  "load_factor w =
     (case w of Deep \<Rightarrow> Finite 1 | Shallow \<Rightarrow> to_double (3 / 10)
              | Recovery \<Rightarrow> Finite (- (1 / 2)) | _ \<Rightarrow> Finite 0)"

definition load_contribution :: "session \<Rightarrow> double" where
  "load_contribution s = fmul (duration_number s) (load_factor (work_type (sess_context s)))"

definition accumulated_minutes :: "session list \<Rightarrow> double" where
  "accumulated_minutes sessions =
     foldl (\<lambda>acc s. fadd acc (load_contribution s)) (Finite 0) (filter load_bearing sessions)"

definition load_percent :: "double \<Rightarrow> double" where
  "load_percent minutes = fmul (fdiv minutes (Finite 240)) (Finite 100)"




section \<open>Scoring engine: properties\<close>

lemma floor_rat_div: "\<lfloor>(of_int a :: rat) / of_int b\<rfloor> = a div b"
  by (rule floor_divide_of_int_eq)

text \<open>
  Claim C1. For an ended session whose progress rating \<open>p\<close>, focus quality \<open>f\<close> and quality
  rating \<open>q\<close> all lie in 1..5, the per-session score is
  \<open>min(100, (p*2 + f*1.5 + q*1) / 22.5 * 100)\<close>; it lies between 20 and 100, it is exactly
  100 for \<open>p = f = q = 5\<close> and exactly 20 for \<open>p = f = q = 1\<close>.
\<close>

theorem getSessionScore_formula:
  assumes "outcome s = Some oc"
    and "progress_rating oc = p" and "focus_quality oc = f" and "quality_rating oc = q"
    and "1 \<le> p" "p \<le> 5" "1 \<le> f" "f \<le> 5" "1 \<le> q" "q \<le> 5"
  shows "getSessionScore s
           = min 100 ((of_int p * 2 + of_int f * 1.5 + of_int q * 1) / 22.5 * 100)
         \<and> 20 \<le> getSessionScore s \<and> getSessionScore s \<le> 100
         \<and> (p = 5 \<and> f = 5 \<and> q = 5 \<longrightarrow> getSessionScore s = 100)
         \<and> (p = 1 \<and> f = 1 \<and> q = 1 \<longrightarrow> getSessionScore s = 20)"
proof -
  have eq: "getSessionScore s
           = min 100 ((of_int p * 2 + of_int f * 1.5 + of_int q * 1) / 22.5 * 100)"
    unfolding getSessionScore_def Let_def assms(1) option.case assms(2-4) by (rule refl)
  have lo: "(4.5 :: rat) \<le> of_int p * 2 + of_int f * 1.5 + of_int q * 1"
  proof -
    have "(1::rat) \<le> of_int p" "(1::rat) \<le> of_int f" "(1::rat) \<le> of_int q"
      using assms(5,7,9) by simp_all
    then show ?thesis by simp
  qed
  have hi: "getSessionScore s \<le> 100"
    unfolding eq by simp
  have low: "20 \<le> getSessionScore s"
    unfolding eq using lo by (simp add: field_simps)
  have top: "p = 5 \<and> f = 5 \<and> q = 5 \<longrightarrow> getSessionScore s = 100"
    unfolding eq by simp
  have bot: "p = 1 \<and> f = 1 \<and> q = 1 \<longrightarrow> getSessionScore s = 20"
    unfolding eq by simp
  from eq low hi top bot show ?thesis by blast
qed

theorem getSessionScore_formula_witness:
  "getSessionScore
     \<lparr>start_time = 0, sess_context = \<lparr>work_type = Deep\<rparr>, duration_minutes = Some 50,
      outcome = Some \<lparr>progress_rating = 4, quality_rating = 3, focus_quality = 5\<rparr>,
      after = None\<rparr> = 740 / 9
   \<and> getSessionScore
     \<lparr>start_time = 0, sess_context = \<lparr>work_type = Deep\<rparr>, duration_minutes = Some 50,
      outcome = Some \<lparr>progress_rating = 5, quality_rating = 5, focus_quality = 5\<rparr>,
      after = None\<rparr> = 100"
  using getSessionScore_formula
          [of "\<lparr>start_time = 0, sess_context = \<lparr>work_type = Deep\<rparr>,
                duration_minutes = Some 50,
                outcome = Some \<lparr>progress_rating = 4, quality_rating = 3,
                                focus_quality = 5\<rparr>,
                after = None\<rparr>"
              "\<lparr>progress_rating = 4, quality_rating = 3, focus_quality = 5\<rparr>" 4 5 3]
        getSessionScore_formula
          [of "\<lparr>start_time = 0, sess_context = \<lparr>work_type = Deep\<rparr>,
                duration_minutes = Some 50,
                outcome = Some \<lparr>progress_rating = 5, quality_rating = 5,
                                focus_quality = 5\<rparr>,
                after = None\<rparr>"
              "\<lparr>progress_rating = 5, quality_rating = 5, focus_quality = 5\<rparr>" 5 5 5]
  by simp

lemma foldl_add_sum_list:
  fixes g :: "'a \<Rightarrow> int"
  shows "foldl (\<lambda>acc s. acc + g s) a xs = a + sum_list (map g xs)"
  by (induction xs arbitrary: a) simp_all

lemma floor_rat_div_numeral: "\<lfloor>(of_int a :: rat) / numeral n\<rfloor> = a div numeral n"
  using floor_rat_div [of a "numeral n"] by simp

lemma floor_rat_numeral_div:
  "\<lfloor>(numeral a :: rat) / numeral b\<rfloor> = numeral a div numeral b"
  using floor_rat_div [of "numeral a" "numeral b"] by simp

lemma add_output_points_eq:
  "add_output_points sessions score = score + output_component sessions"
  by (simp add: add_output_points_def output_component_def total_deep_work_minutes_def
        foldl_add_sum_list floor_rat_div_numeral)

lemma add_sleep_points_eq:
  "add_sleep_points slp score = score + input_component slp"
  by (cases slp) (simp_all add: add_sleep_points_def input_component_def Let_def)

lemma add_efficiency_points_eq:
  "add_efficiency_points sessions score = score + efficiency_component sessions"
  by (simp add: add_efficiency_points_def efficiency_component_def
        average_focus_quality_def rated_sessions_def foldl_add_sum_list Let_def)

text \<open>
  Claim C2. The fallback daily index is the output component
  \<open>min(60, floor(total deep-work minutes / 5))\<close>, plus the input component (+10 for a sleep
  of at least 420 minutes, else +5 for at least 360, and an independent +10 for a sleep
  quality of at least 4), plus the efficiency component \<open>floor(average focus quality over
  the rated sessions * 4)\<close> (nothing when no session is rated), the total capped at 100;
  a day with no session and no sleep record has index 0.
\<close>

theorem calculateFallbackScore_components:
  "calculateFallbackScore sessions slp
     = min 100 (output_component sessions + input_component slp
                + efficiency_component sessions)
   \<and> calculateFallbackScore sessions slp \<le> 100
   \<and> calculateFallbackScore [] None = 0"
proof -
  have empty: "calculateFallbackScore [] None = 0"
    by (simp add: calculateFallbackScore_def)
  have eq: "calculateFallbackScore sessions slp
     = min 100 (output_component sessions + input_component slp
                + efficiency_component sessions)"
  proof (cases "sessions = [] \<and> slp = None")
    case True
    have "output_component [] = 0" "input_component None = 0" "efficiency_component [] = 0"
      by (simp_all add: output_component_def total_deep_work_minutes_def
            input_component_def efficiency_component_def rated_sessions_def)
    with True empty show ?thesis by simp
  next
    case False
    then have "calculateFallbackScore sessions slp
        = min 100 (add_efficiency_points sessions
                     (add_sleep_points slp (add_output_points sessions 0)))"
      unfolding calculateFallbackScore_def Let_def by (simp only: if_False)
    then show ?thesis
      by (simp only: add_output_points_eq add_sleep_points_eq add_efficiency_points_eq
            add_0)
  qed
  have "calculateFallbackScore sessions slp \<le> 100"
    unfolding eq by (rule min.cobounded1)
  with eq empty show ?thesis by blast
qed

theorem calculateFallbackScore_components_witness:
  "calculateFallbackScore example_day (Some example_sleep) = 57"
proof -
  have out: "output_component example_day = 24"
    by (simp add: output_component_def total_deep_work_minutes_def example_day_def
          or_zero_def)
  have inp: "input_component (Some example_sleep) = 20"
    by (simp add: input_component_def example_sleep_def)
  have eff: "efficiency_component example_day = 13"
    by (simp add: efficiency_component_def average_focus_quality_def rated_sessions_def
          outcome_focus_def example_day_def floor_rat_numeral_div)
  from calculateFallbackScore_components [of example_day "Some example_sleep"]
  have "calculateFallbackScore example_day (Some example_sleep)
          = min 100 (output_component example_day + input_component (Some example_sleep)
                     + efficiency_component example_day)"
    by blast
  with out inp eff show ?thesis by simp
qed

text \<open>
  Claim C3. For an intake record the bonus is \<open>min(5, floor(water_glasses / 2))\<close> plus 5
  points for each of breakfast, lunch and dinner that is logged, capped at 20 overall; ten
  glasses and three meals give exactly 20. The extended score is
  \<open>min(100, base_score + intake_bonus)\<close> and so never exceeds 100.
\<close>

theorem calculateIntakePoints_bonus:
  "calculateIntakePoints (Some i)
     = min 20 (min 5 (water_count i div 2) + 5 * count_of_meals_logged i)
   \<and> calculateIntakePoints intk \<le> 20
   \<and> (water_count i = 10 \<and> Boolean_js (breakfast_time i) \<and> Boolean_js (lunch_time i)
        \<and> Boolean_js (dinner_time i) \<longrightarrow> calculateIntakePoints (Some i) = 20)
   \<and> extendedLiveScore base intk = min 100 (base + of_int (calculateIntakePoints intk))
   \<and> extendedLiveScore base intk \<le> 100"
proof -
  have eq: "calculateIntakePoints (Some i)
     = min 20 (min 5 (water_count i div 2) + 5 * count_of_meals_logged i)"
    by (simp add: calculateIntakePoints_def count_of_meals_logged_def Let_def
          floor_rat_div_numeral)
  have cap: "calculateIntakePoints intk \<le> 20"
    by (cases intk) (simp_all add: calculateIntakePoints_def Let_def)
  have ex: "water_count i = 10 \<and> Boolean_js (breakfast_time i) \<and> Boolean_js (lunch_time i)
        \<and> Boolean_js (dinner_time i) \<longrightarrow> calculateIntakePoints (Some i) = 20"
    unfolding eq by (simp add: count_of_meals_logged_def)
  have ext: "extendedLiveScore base intk
               = min 100 (base + of_int (calculateIntakePoints intk))"
    by (simp add: extendedLiveScore_def)
  have "extendedLiveScore base intk \<le> 100"
    unfolding ext by (rule min.cobounded1)
  with eq cap ex ext show ?thesis by blast
qed

theorem calculateIntakePoints_bonus_witness:
  "water_count example_intake = 10
   \<and> Boolean_js (breakfast_time example_intake) \<and> Boolean_js (lunch_time example_intake)
   \<and> Boolean_js (dinner_time example_intake)
   \<and> calculateIntakePoints (Some example_intake) = 20
   \<and> extendedLiveScore 95 (Some example_intake) = 100"
proof -
  have h: "water_count example_intake = 10
   \<and> Boolean_js (breakfast_time example_intake) \<and> Boolean_js (lunch_time example_intake)
   \<and> Boolean_js (dinner_time example_intake)"
    by (simp add: example_intake_def Boolean_js_def)
  note inst = calculateIntakePoints_bonus [of example_intake "Some example_intake" 95]
  from inst h have pts: "calculateIntakePoints (Some example_intake) = 20"
    by blast
  from inst have "extendedLiveScore 95 (Some example_intake)
                   = min 100 (95 + of_int (calculateIntakePoints (Some example_intake)))"
    by blast
  with pts have "extendedLiveScore 95 (Some example_intake) = 100"
    by simp
  with h pts show ?thesis by blast
qed

subsection \<open>Double-precision numbers\<close>

lemma ceiling_rat_numeral_div:
  "\<lceil>(numeral a :: rat) / numeral b\<rceil> = - ((- numeral a) div numeral b)"
  using floor_rat_div [of "- numeral a" "numeral b"] by (simp add: ceiling_def)

lemma round_half_even_eval:
  "round_half_even y =
     (if y - of_int \<lfloor>y\<rfloor> < 1 / 2 then \<lfloor>y\<rfloor>
      else if 1 / 2 < y - of_int \<lfloor>y\<rfloor> then \<lfloor>y\<rfloor> + 1
      else if even \<lfloor>y\<rfloor> then \<lfloor>y\<rfloor> else \<lfloor>y\<rfloor> + 1)"
  unfolding round_half_even_def Let_def by (rule refl)

lemma to_double_eval:
  "to_double x =
     (if x = 0 then Finite 0
      else if pow2 1024
              \<le> of_int (round_half_even
                          (\<bar>x\<bar> / pow2 (max (binary_exponent \<bar>x\<bar>) (- 1022) - 52)))
                * pow2 (max (binary_exponent \<bar>x\<bar>) (- 1022) - 52)
           then (if 0 < x then PosInf else NegInf)
           else Finite (if 0 < x
                        then of_int (round_half_even
                               (\<bar>x\<bar> / pow2 (max (binary_exponent \<bar>x\<bar>) (- 1022) - 52)))
                             * pow2 (max (binary_exponent \<bar>x\<bar>) (- 1022) - 52)
                        else - (of_int (round_half_even
                               (\<bar>x\<bar> / pow2 (max (binary_exponent \<bar>x\<bar>) (- 1022) - 52)))
                             * pow2 (max (binary_exponent \<bar>x\<bar>) (- 1022) - 52))))"
  unfolding to_double_def Let_def by (rule refl)

lemmas double_eval = to_double_eval round_half_even_eval binary_exponent_def pow2_def
  bit_length.simps floor_rat_numeral_div ceiling_rat_numeral_div


lemma pow2_powi: "pow2 k = 2 powi k"
  by (simp add: pow2_def power_int_def power_one_over)

lemma pow2_pos: "0 < pow2 k"
  by (simp add: pow2_powi)

lemma pow2_add: "pow2 (j + k) = pow2 j * pow2 k"
  by (simp add: pow2_powi power_int_add)

lemma pow2_of_nat: "pow2 (int n) = 2 ^ n"
  by (simp add: pow2_powi)

lemma pow2_mono: "j \<le> k \<Longrightarrow> pow2 j \<le> pow2 k"
  by (simp add: pow2_powi power_int_increasing)

lemma pow2_neg_nat: "pow2 (- int n) = 1 / 2 ^ n"
  by (simp add: pow2_powi power_int_minus inverse_eq_divide)

lemma bit_length_bounds:
  "0 < n \<Longrightarrow> 0 < bit_length n \<and> 2 ^ (bit_length n - 1) \<le> n \<and> n < 2 ^ bit_length n"
proof (induction n rule: bit_length.induct)
  case (1 n)
  from "1.prems" have step: "bit_length n = Suc (bit_length (n div 2))"
    by (simp add: bit_length.simps [of n])
  show ?case
  proof (cases "n div 2 = 0")
    case True
    with "1.prems" have "n = 1" by (simp add: div_eq_0_iff) 
    with True step show ?thesis by (simp add: bit_length.simps [of 0])
  next
    case False
    with "1.prems" "1.IH" have ih: "0 < bit_length (n div 2)"
      "2 ^ (bit_length (n div 2) - 1) \<le> n div 2" "n div 2 < 2 ^ bit_length (n div 2)"
      by simp_all
    from ih(1) obtain b where b: "bit_length (n div 2) = Suc b"
      by (cases "bit_length (n div 2)") simp_all
    from ih(2) b have "2 ^ Suc b \<le> 2 * (n div 2)" by simp
    then have lo: "2 ^ Suc b \<le> n" by linarith
    from ih(3) b have "n div 2 + 1 \<le> 2 ^ Suc b" by simp
    then have "2 * (n div 2) + 2 \<le> 2 ^ Suc (Suc b)" by simp
    then have hi: "n < 2 ^ Suc (Suc b)" by linarith
    from lo hi step b show ?thesis by simp
  qed
qed

lemma binary_exponent_bounds:
  assumes "0 < x"
  shows "pow2 (binary_exponent x) \<le> x \<and> x < pow2 (binary_exponent x + 1)"
proof (cases "1 \<le> x")
  case True
  define n where "n = nat \<lfloor>x\<rfloor>"
  from True have fl: "1 \<le> \<lfloor>x\<rfloor>" by simp
  then have n: "0 < n" "int n = \<lfloor>x\<rfloor>" by (simp_all add: n_def)
  from bit_length_bounds [OF n(1)] obtain b where b: "bit_length n = Suc b"
    and lo: "2 ^ b \<le> n" and hi: "n < 2 ^ Suc b"
    by (cases "bit_length n") auto
  have e: "binary_exponent x = int b"
    using True b by (simp add: binary_exponent_def n_def)
  have "(2::rat) ^ b \<le> of_nat n" using lo
    by (metis of_nat_le_iff of_nat_numeral of_nat_power)
  also have "\<dots> = of_int \<lfloor>x\<rfloor>" using n(2) by (metis of_int_of_nat_eq)
  also have "\<dots> \<le> x" by simp
  finally have l: "pow2 (binary_exponent x) \<le> x" by (simp add: e pow2_of_nat)
  have "int n + 1 \<le> 2 ^ Suc b" using hi by (metis Suc_leI of_nat_Suc of_nat_le_iff of_nat_numeral of_nat_power add.commute)
  then have "\<lfloor>x\<rfloor> + 1 \<le> 2 ^ Suc b" using n(2) by simp
  then have "(of_int (\<lfloor>x\<rfloor> + 1) :: rat) \<le> of_int (2 ^ Suc b)" by (simp only: of_int_le_iff)
  moreover have "x < of_int (\<lfloor>x\<rfloor> + 1)" by linarith
  ultimately have "x < 2 ^ Suc b" by simp
  then have h: "x < pow2 (binary_exponent x + 1)"
    using pow2_of_nat [of "Suc b"] by (simp add: e add.commute)
  from l h show ?thesis by simp
next
  case False
  define y where "y = 1 / x"
  define m where "m = nat (\<lceil>y\<rceil> - 1)"
  from False assms have y1: "1 < y" by (simp add: y_def)
  then have c2: "2 \<le> \<lceil>y\<rceil>" by linarith
  then have m: "0 < m" "int m = \<lceil>y\<rceil> - 1" by (simp_all add: m_def)
  from bit_length_bounds [OF m(1)] obtain b where b: "bit_length m = Suc b"
    and lo: "2 ^ b \<le> m" and hi: "m < 2 ^ Suc b"
    by (cases "bit_length m") auto
  have e: "binary_exponent x = - int (Suc b)"
    using False b by (simp add: binary_exponent_def m_def y_def)
  have ypos: "0 < y" using y1 by simp
  have x_eq: "x = 1 / y" using assms by (simp add: y_def)
  have "int m + 1 \<le> 2 ^ Suc b" using hi
    by (metis Suc_leI of_nat_Suc of_nat_le_iff of_nat_numeral of_nat_power add.commute)
  then have "\<lceil>y\<rceil> \<le> 2 ^ Suc b" using m(2) by simp
  then have "(of_int \<lceil>y\<rceil> :: rat) \<le> of_int (2 ^ Suc b)" by (simp only: of_int_le_iff)
  then have "(of_int \<lceil>y\<rceil> :: rat) \<le> 2 ^ Suc b" by simp
  with le_of_int_ceiling [of y] have yhi: "y \<le> 2 ^ Suc b" by (rule order_trans)
  have "(2::int) ^ b \<le> int m" using lo
    by (metis of_nat_le_iff of_nat_numeral of_nat_power)
  then have "(2::int) ^ b \<le> \<lceil>y\<rceil> - 1" using m(2) by simp
  then have "(of_int (2 ^ b) :: rat) \<le> of_int (\<lceil>y\<rceil> - 1)" by (simp only: of_int_le_iff)
  then have "(2::rat) ^ b \<le> of_int (\<lceil>y\<rceil> - 1)" by simp
  moreover have "of_int (\<lceil>y\<rceil> - 1) < y" by linarith
  ultimately have ylo: "2 ^ b < y" by (rule le_less_trans)
  have pe: "pow2 (binary_exponent x) = 1 / 2 ^ Suc b"
    unfolding e by (rule pow2_neg_nat)
  have "binary_exponent x + 1 = - int b" using e by simp
  then have pe1: "pow2 (binary_exponent x + 1) = 1 / 2 ^ b"
    by (simp only: pow2_neg_nat)
  have "1 / 2 ^ Suc b \<le> 1 / y" using yhi ypos by (simp add: frac_le)
  then have "1 / 2 ^ Suc b \<le> x" by (simp only: x_eq)
  then have l: "pow2 (binary_exponent x) \<le> x" by (simp only: pe)
  have "1 / y < 1 / 2 ^ b" using ylo by (simp add: frac_less2)
  then have "x < 1 / 2 ^ b" by (simp only: x_eq)
  then have h: "x < pow2 (binary_exponent x + 1)" by (simp only: pe1)
  from l h show ?thesis by simp
qed

lemma pow2_strict_mono: "j < k \<Longrightarrow> pow2 j < pow2 k"
  by (simp add: pow2_powi power_int_strict_increasing)

lemma pow2_le_imp_le:
  assumes "pow2 j \<le> pow2 k"
  shows "j \<le> k"
proof (rule ccontr)
  assume "\<not> j \<le> k"
  then have "pow2 k < pow2 j" by (simp add: pow2_strict_mono)
  with assms show False by simp
qed

lemma to_double_neg: "to_double (- x) = fneg (to_double x)"
proof (cases "x = 0")
  case True
  then show ?thesis by (simp add: to_double_def)
next
  case False
  then show ?thesis
    by (cases "0 < x") (simp_all add: to_double_def Let_def)
qed

lemma round_half_even_of_int: "round_half_even (of_int k) = k"
  by (simp add: round_half_even_def)

lemma round_half_even_near: "\<bar>of_int (round_half_even y) - y\<bar> \<le> 1 / 2"
proof -
  define f where "f = \<lfloor>y\<rfloor>"
  define r where "r = y - of_int f"
  have r: "0 \<le> r" "r < 1" unfolding r_def f_def by linarith+
  have y: "y = of_int f + r" by (simp add: r_def)
  have eq: "round_half_even y
              = (if r < 1 / 2 then f else if 1 / 2 < r then f + 1
                 else if even f then f else f + 1)"
    by (simp add: round_half_even_def Let_def f_def r_def)
  have diff: "\<And>k. of_int k - y = of_int (k - f) - r" by (simp add: y)
  show ?thesis
  proof (cases "r < 1 / 2")
    case True
    with eq have "round_half_even y = f" by simp
    then have "of_int (round_half_even y) - y = - r" by (simp add: diff)
    with r True show ?thesis by simp
  next
    case False
    show ?thesis
    proof (cases "1 / 2 < r")
      case True
      with False eq have "round_half_even y = f + 1" by simp
      then have "of_int (round_half_even y) - y = 1 - r" by (simp add: diff)
      with r True show ?thesis by simp
    next
      case half: False
      with False have rh: "r = 1 / 2" by simp
      from eq False half have "round_half_even y = f \<or> round_half_even y = f + 1"
        by auto
      then have "of_int (round_half_even y) - y = - r \<or> of_int (round_half_even y) - y = 1 - r"
        by (auto simp: diff)
      with rh show ?thesis by auto
    qed
  qed
qed

lemma round_half_even_le:
  assumes "y \<le> of_int k"
  shows "round_half_even y \<le> k"
proof -
  have fl: "\<lfloor>y\<rfloor> \<le> k" using assms by (simp add: floor_le_iff) 
  show ?thesis
  proof (cases "\<lfloor>y\<rfloor> = k")
    case True
    with assms have "y = of_int \<lfloor>y\<rfloor>"
      using of_int_floor_le [of y] by simp
    then have "round_half_even y = \<lfloor>y\<rfloor>"
      by (metis round_half_even_of_int)
    with True show ?thesis by simp
  next
    case False
    with fl have "\<lfloor>y\<rfloor> + 1 \<le> k" by simp
    moreover have "round_half_even y \<le> \<lfloor>y\<rfloor> + 1"
      by (simp add: round_half_even_def Let_def)
    ultimately show ?thesis by simp
  qed
qed

lemma round_half_even_nonneg: "0 \<le> y \<Longrightarrow> 0 \<le> round_half_even y"
  by (simp add: round_half_even_def Let_def)

text \<open>A number of magnitude at most \<open>2^1023\<close> rounds to a finite double of such magnitude.\<close>

lemma to_double_finite:
  assumes "\<bar>x\<bar> \<le> pow2 1023"
  shows "\<exists>r. to_double x = Finite r \<and> \<bar>r\<bar> \<le> pow2 1023"
proof (cases "x = 0")
  case True
  then show ?thesis using pow2_pos [of 1023] by (simp add: to_double_def)
next
  case False
  define a where "a = \<bar>x\<bar>"
  define e where "e = max (binary_exponent a) (- 1022)"
  define q where "q = pow2 (e - 52)"
  define m where "m = round_half_even (a / q)"
  from False have apos: "0 < a" by (simp add: a_def)
  have qpos: "0 < q" by (simp add: q_def pow2_pos)
  from binary_exponent_bounds [OF apos] assms
  have "pow2 (binary_exponent a) \<le> pow2 1023" by (simp add: a_def)
  then have "binary_exponent a \<le> 1023" by (rule pow2_le_imp_le)
  then have e: "e \<le> 1023" by (simp add: e_def)
  define K where "K = (2::int) ^ nat (1075 - e)"
  have Kq: "of_int K * q = pow2 1023"
  proof -
    have z: "int (nat (1075 - e)) = 1075 - e" using e by simp
    have "(of_int K :: rat) = 2 ^ nat (1075 - e)" by (simp add: K_def)
    also have "\<dots> = pow2 (int (nat (1075 - e)))" by (simp only: pow2_of_nat)
    also have "\<dots> = pow2 (1075 - e)" by (simp only: z)
    finally have K': "of_int K = pow2 (1075 - e)" .
    have "of_int K * q = pow2 (1075 - e) * pow2 (e - 52)" by (simp only: K' q_def)
    also have "\<dots> = pow2 ((1075 - e) + (e - 52))" by (simp only: pow2_add)
    also have "(1075 - e) + (e - 52) = 1023" by simp
    finally show ?thesis .
  qed
  have "a / q \<le> of_int K"
  proof -
    have "a \<le> of_int K * q" using assms Kq by (simp add: a_def)
    then show ?thesis using qpos by (simp add: pos_divide_le_eq)
  qed
  then have mK: "m \<le> K" unfolding m_def by (rule round_half_even_le)
  have m0: "0 \<le> m" unfolding m_def
    using apos qpos by (intro round_half_even_nonneg) simp
  have r_le: "of_int m * q \<le> pow2 1023"
  proof -
    have "of_int m * q \<le> of_int K * q"
      using mK qpos by (simp add: mult_right_mono)
    with Kq show ?thesis by simp
  qed
  have r_ge: "0 \<le> of_int m * q" using m0 qpos by simp
  have "pow2 1023 < pow2 1024" by (rule pow2_strict_mono) simp
  with r_le have no: "\<not> pow2 1024 \<le> of_int m * q" by simp
  have "to_double x = Finite (if 0 < x then of_int m * q else - (of_int m * q))"
    using False no unfolding to_double_def Let_def a_def [symmetric] e_def [symmetric]
      q_def [symmetric] m_def [symmetric]
    by simp
  moreover have "\<bar>if 0 < x then of_int m * q else - (of_int m * q)\<bar> \<le> pow2 1023"
    using r_le r_ge by simp
  ultimately show ?thesis by blast
qed

text \<open>Whole numbers up to \<open>2^53\<close> are doubles.\<close>

lemma to_double_of_int:
  assumes "\<bar>n\<bar> \<le> 2 ^ 53"
  shows "to_double (of_int n) = Finite (of_int n)"
proof (cases "n = 0")
  case True
  then show ?thesis by (simp add: to_double_def)
next
  case False
  define a :: rat where "a = \<bar>of_int n\<bar>"
  define e where "e = max (binary_exponent a) (- 1022)"
  define q where "q = pow2 (e - 52)"
  have a_int: "a = of_int \<bar>n\<bar>" by (simp add: a_def)
  from False have a1: "1 \<le> a" unfolding a_int by (simp add: )
  then have apos: "0 < a" by simp
  have a53: "a \<le> pow2 53"
  proof -
    have "(of_int \<bar>n\<bar> :: rat) \<le> of_int (2 ^ 53)" using assms by (simp only: of_int_le_iff)
    then show ?thesis by (simp add: a_int pow2_def)
  qed
  have "0 < nat \<lfloor>a\<rfloor>" using a1 by simp
  from bit_length_bounds [OF this] a1
  have e0: "0 \<le> binary_exponent a" by (simp add: binary_exponent_def)
  then have e_eq: "e = binary_exponent a" by (simp add: e_def)
  from binary_exponent_bounds [OF apos] a53
  have "pow2 e \<le> pow2 53" unfolding e_eq by simp
  then have e53: "e \<le> 53" by (rule pow2_le_imp_le)
  have qpos: "0 < q" by (simp add: q_def pow2_pos)
  have exact: "of_int (round_half_even (a / q)) * q = a"
  proof (cases "e \<le> 52")
    case True
    define k where "k = \<bar>n\<bar> * 2 ^ nat (52 - e)"
    have "pow2 (52 - e) * q = pow2 ((52 - e) + (e - 52))"
      by (simp only: q_def pow2_add)
    also have "(52 - e) + (e - 52) = 0" by simp
    finally have inv: "pow2 (52 - e) * q = 1" by (simp add: pow2_def)
    have p: "pow2 (52 - e) = of_int (2 ^ nat (52 - e))"
      using True by (simp add: pow2_def)
    have "a / q = a * pow2 (52 - e)"
      using inv qpos by (simp add: field_simps)
    also have "\<dots> = of_int k" by (simp add: a_int p k_def)
    finally have aq: "a / q = of_int k" .
    have "of_int (round_half_even (a / q)) * q = of_int k * q"
      by (simp add: aq round_half_even_of_int)
    also have "\<dots> = a" using aq qpos by (simp add: field_simps)
    finally show ?thesis .
  next
    case False
    with e53 have e: "e = 53" by simp
    from binary_exponent_bounds [OF apos] have "pow2 53 \<le> a" by (simp add: e_eq [symmetric] e)
    with a53 have a_eq: "a = pow2 53" by simp
    have q2: "q = 2" by (simp add: q_def e pow2_def)
    have "a / q = of_int (2 ^ 52)" by (simp add: a_eq q2 pow2_def)
    then have "round_half_even (a / q) = 2 ^ 52" by (simp only: round_half_even_of_int)
    then show ?thesis by (simp add: a_eq q2 pow2_def)
  qed
  have "a < pow2 1024"
  proof -
    have "pow2 53 < pow2 1024" by (rule pow2_strict_mono) simp
    with a53 show ?thesis by simp
  qed
  then have no: "\<not> pow2 1024 \<le> of_int (round_half_even (a / q)) * q"
    by (simp add: exact)
  have nz: "(of_int n :: rat) \<noteq> 0" using False by simp
  have "to_double (of_int n)
          = Finite (if 0 < (of_int n :: rat) then a else - a)"
    using nz no exact unfolding to_double_def Let_def a_def [symmetric] e_def [symmetric]
      q_def [symmetric]
    by simp
  also have "(if 0 < (of_int n :: rat) then a else - a) = of_int n"
    by (simp add: a_def)
  finally show ?thesis .
qed

text \<open>Rounding moves a number by at most half the spacing of its binade.\<close>

lemma to_double_near:
  assumes "to_double x = Finite r"
  shows "\<bar>r - x\<bar> \<le> pow2 (max (binary_exponent \<bar>x\<bar>) (- 1022) - 53)"
proof (cases "x = 0")
  case True
  with assms show ?thesis using pow2_pos [of "max (binary_exponent 0) (- 1022) - 53"]
    by (simp add: to_double_def)
next
  case False
  define a where "a = \<bar>x\<bar>"
  define e where "e = max (binary_exponent a) (- 1022)"
  define q where "q = pow2 (e - 52)"
  define m where "m = round_half_even (a / q)"
  have qpos: "0 < q" by (simp add: q_def pow2_pos)
  have half: "q / 2 = pow2 (e - 53)"
  proof -
    have "pow2 (e - 52) = pow2 ((e - 53) + 1)" by simp
    also have "\<dots> = pow2 (e - 53) * pow2 1" by (simp only: pow2_add)
    finally show ?thesis by (simp add: q_def pow2_def)
  qed
  have "\<bar>of_int m - a / q\<bar> \<le> 1 / 2" unfolding m_def by (rule round_half_even_near)
  then have "\<bar>of_int m - a / q\<bar> * q \<le> 1 / 2 * q"
    using qpos by (simp add: mult_right_mono)
  moreover have "\<bar>of_int m - a / q\<bar> * q = \<bar>of_int m * q - a\<bar>"
  proof -
    have "\<bar>of_int m - a / q\<bar> * q = \<bar>(of_int m - a / q) * q\<bar>"
      using qpos by (simp add: abs_mult)
    also have "(of_int m - a / q) * q = of_int m * q - a"
      using qpos by (simp add: field_simps)
    finally show ?thesis .
  qed
  ultimately have near: "\<bar>of_int m * q - a\<bar> \<le> pow2 (e - 53)"
    using half by simp
  from assms False
  have r: "r = (if 0 < x then of_int m * q else - (of_int m * q))"
    unfolding to_double_def Let_def a_def [symmetric] e_def [symmetric] q_def [symmetric]
      m_def [symmetric]
    by (simp split: if_splits)
  show ?thesis
  proof (cases "0 < x")
    case True
    with r near show ?thesis by (simp add: a_def e_def)
  next
    case neg: False
    with False have "x < 0" by simp
    then have "a = - x" by (simp add: a_def)
    with r neg near have "\<bar>r - x\<bar> = \<bar>of_int m * q - a\<bar>" 
      by (simp add: abs_minus_commute)
    with near show ?thesis by (simp add: a_def e_def)
  qed
qed

lemma to_double_not_nan: "to_double x \<noteq> NotANumber"
  by (simp add: to_double_def Let_def)

lemma to_double_zero: "to_double 0 = Finite 0"
  by (simp add: to_double_def)

lemma to_double_one: "to_double 1 = Finite 1"
  by (simp add: double_eval)

lemma to_double_half: "to_double (1 / 2) = Finite (1 / 2)"
  by (simp add: double_eval)

lemma to_double_three_tenths:
  "to_double (3 / 10) = Finite (5404319552844595 / 18014398509481984)"
  by (simp add: double_eval)

lemma fmul_neg_half: "fmul d (Finite (- (1 / 2))) = fneg (fmul d (Finite (1 / 2)))"
  by (cases d) (simp_all add: to_double_neg [symmetric])

lemma fadd_finite_not_nan: "x \<noteq> NotANumber \<Longrightarrow> fadd x (Finite c) \<noteq> NotANumber"
  by (cases x) (simp_all add: to_double_not_nan)

lemma clamp_round:
  "Math_max2 (Finite 0) (Math_min2 (Finite 100) (Math_round p))
     = (case p of
          Finite x \<Rightarrow> Finite (of_int (max 0 (min 100 \<lfloor>x + 1 / 2\<rfloor>)))
        | PosInf \<Rightarrow> Finite 100
        | NegInf \<Rightarrow> Finite 0
        | NotANumber \<Rightarrow> NotANumber)"
  by (cases p) (simp_all add: of_int_max of_int_min)

subsection \<open>\<^verbatim>\<open>calculateSystemLoad\<close>\<close>

lemma load_step_eq:
  "load_step acc s = (if load_bearing s then fadd acc (load_contribution s) else acc)"
proof (cases "outcome s")
  case None
  then show ?thesis by (simp add: load_step_def load_bearing_def)
next
  case (Some oc)
  then show ?thesis
    by (cases "work_type (sess_context s)")
       (simp_all add: load_step_def load_bearing_def load_contribution_def load_factor_def
          Let_def fsub_def to_double_one to_double_half fmul_neg_half)
qed

lemma foldl_load_step:
  "foldl load_step a sessions
     = foldl (\<lambda>acc s. fadd acc (load_contribution s)) a (filter load_bearing sessions)"
  by (induction sessions arbitrary: a) (simp_all add: load_step_eq)

lemma calculateSystemLoad_eq:
  "calculateSystemLoad sessions
     = Math_max2 (Finite 0)
         (Math_min2 (Finite 100) (Math_round (load_percent (accumulated_minutes sessions))))"
  by (simp add: calculateSystemLoad_def accumulated_minutes_def load_percent_def
        foldl_load_step)

lemma load_factor_small: "\<exists>w. load_factor t = Finite w \<and> \<bar>w\<bar> \<le> 1"
proof (cases t)
  case Shallow
  then have "load_factor t = Finite (5404319552844595 / 18014398509481984)"
    by (simp add: load_factor_def to_double_three_tenths)
  moreover have "\<bar>5404319552844595 / 18014398509481984 :: rat\<bar> \<le> 1"
    by simp
  ultimately show ?thesis by blast
qed (simp_all add: load_factor_def)

lemma load_contribution_finite:
  assumes "\<bar>or_zero (duration_minutes s)\<bar> \<le> 2 ^ 53"
  shows "\<exists>c. load_contribution s = Finite c"
proof -
  define d where "d = or_zero (duration_minutes s)"
  from assms have dn: "duration_number s = Finite (of_int d)"
    by (simp add: duration_number_def d_def to_double_of_int)
  obtain w where w: "load_factor (work_type (sess_context s)) = Finite w" "\<bar>w\<bar> \<le> 1"
    using load_factor_small by blast
  have "\<bar>(of_int d :: rat) * w\<bar> = \<bar>of_int d\<bar> * \<bar>w\<bar>" by (simp add: abs_mult)
  also have "\<dots> \<le> \<bar>of_int d\<bar> * 1"
    using w(2) by (intro mult_left_mono) simp_all
  also have "\<dots> = of_int \<bar>d\<bar>" by simp
  also have "\<dots> \<le> of_int (2 ^ 53)"
    using assms unfolding d_def [symmetric] by (simp only: of_int_le_iff)
  also have "\<dots> = pow2 53" using pow2_of_nat [of 53] by simp
  also have "\<dots> \<le> pow2 1023" by (rule pow2_mono) simp
  finally have "\<bar>(of_int d :: rat) * w\<bar> \<le> pow2 1023" .
  from to_double_finite [OF this] obtain r where "to_double (of_int d * w) = Finite r"
    by blast
  with dn w(1) show ?thesis by (simp add: load_contribution_def)
qed

lemma accumulated_not_nan:
  assumes "\<forall>s\<in>set sessions. \<bar>or_zero (duration_minutes s)\<bar> \<le> 2 ^ 53"
    and "a \<noteq> NotANumber"
  shows "foldl (\<lambda>acc s. fadd acc (load_contribution s)) a (filter load_bearing sessions)
           \<noteq> NotANumber"
  using assms
proof (induction sessions arbitrary: a)
  case Nil
  then show ?case by simp
next
  case (Cons s sessions)
  from Cons.prems(1) obtain c where c: "load_contribution s = Finite c"
    using load_contribution_finite [of s] by auto
  from Cons.prems(2) have "fadd a (load_contribution s) \<noteq> NotANumber"
    unfolding c by (rule fadd_finite_not_nan)
  with Cons.IH [of "fadd a (load_contribution s)"] Cons.IH [of a] Cons.prems
  show ?case by simp
qed

lemma load_percent_not_nan: "m \<noteq> NotANumber \<Longrightarrow> load_percent m \<noteq> NotANumber"
proof (cases m)
  case (Finite a)
  then show ?thesis
    using to_double_not_nan [of "a / 240"]
    by (cases "to_double (a / 240)") (simp_all add: load_percent_def to_double_not_nan)
qed (simp_all add: load_percent_def)

lemma load_percent_240: "load_percent (Finite 240) = Finite 100"
  by (simp add: load_percent_def to_double_one double_eval)

text \<open>
  Claim C5, as the specification words it: the load accumulates duration * 1.0 for Deep,
  duration * 0.3 for Shallow and duration * -0.5 for Recovery across the day's sessions,
  and the reported percentage is the accumulated minutes divided by 240, scaled to
  percent, rounded and clamped to \<open>[0, 100]\<close>. Two days on which the function returns
  something else: a Deep session of 240 minutes with no outcome is passed over, so the
  load is 0 where the sentence gives 100; and for one rated Shallow session of 12 minutes
  the double \<open>12 * 0.3\<close> is \<open>3.5999999999999996\<close>, the percentage \<open>1.4999999999999998\<close>
  rounds to 1, where the sentence, read in exact arithmetic, gives \<open>1.5\<close> and so 2.
\<close>

theorem calculateSystemLoad_counterexample:
  "calculateSystemLoad example_unrated = Finite 0
   \<and> load_percentage (accumulated_load example_unrated) = 100
   \<and> calculateSystemLoad example_shallow = Finite 1
   \<and> load_percentage (accumulated_load example_shallow) = 2"
proof -
  have u: "calculateSystemLoad example_unrated = Finite 0"
    by (simp add: calculateSystemLoad_def example_unrated_def load_step_def to_double_zero)
  have u': "load_percentage (accumulated_load example_unrated) = 100"
    by (simp add: example_unrated_def or_zero_def accumulated_load_def load_weight_def
          load_percentage_def js_round_def)
  have acc: "foldl load_step (Finite 0) example_shallow
               = Finite (2026619832316723 / 562949953421312)"
    by (simp add: example_shallow_def load_step_def duration_number_def or_zero_def
          double_eval)
  have pct: "fmul (fdiv (Finite (2026619832316723 / 562949953421312)) (Finite 240))
               (Finite 100) = Finite (6755399441055743 / 4503599627370496)"
    by (simp add: double_eval)
  have s: "calculateSystemLoad example_shallow = Finite 1"
    unfolding calculateSystemLoad_def Let_def acc pct
    by (simp add: floor_rat_numeral_div)
  have s': "load_percentage (accumulated_load example_shallow) = 2"
    by (simp add: example_shallow_def or_zero_def accumulated_load_def load_weight_def
          load_percentage_def js_round_def floor_rat_numeral_div)
  from u u' s s' show ?thesis by blast
qed

text \<open>
  Claim C5, as amended. The sessions that count are those with an outcome: each adds its
  duration times 1.0 (Deep), 0.3 (Shallow) or -0.5 (Recovery) to the load, every product
  and every sum being rounded to a double; the reported value is the accumulated minutes
  divided by 240 and multiplied by 100 in doubles, then rounded to the nearest integer, a
  half going up, and clamped to \<open>[0, 100]\<close>. When the percentage is a finite number \<open>x\<close>
  the result is the integer \<open>n\<close> with \<open>n \<le> x + 1/2 < n + 1\<close>, clamped. The result is NaN or
  a whole number from 0 to 100, hence never negative, and it is not NaN when every
  duration has a magnitude of at most \<open>2^53\<close>. 240 accumulated minutes are 100.
\<close>

theorem calculateSystemLoad_percentage:
  "calculateSystemLoad sessions
     = Math_max2 (Finite 0)
         (Math_min2 (Finite 100) (Math_round (load_percent (accumulated_minutes sessions))))
   \<and> (load_percent (accumulated_minutes sessions) = Finite x \<longrightarrow>
        (\<exists>n. of_int n \<le> x + 1 / 2 \<and> x + 1 / 2 < of_int n + 1
           \<and> calculateSystemLoad sessions = Finite (of_int (max 0 (min 100 n)))))
   \<and> (calculateSystemLoad sessions = NotANumber
        \<or> (\<exists>n. 0 \<le> n \<and> n \<le> 100 \<and> calculateSystemLoad sessions = Finite (of_int n)))
   \<and> ((\<forall>s\<in>set sessions. \<bar>or_zero (duration_minutes s)\<bar> \<le> 2 ^ 53) \<longrightarrow>
        (\<exists>n. 0 \<le> n \<and> n \<le> 100 \<and> calculateSystemLoad sessions = Finite (of_int n)))
   \<and> (accumulated_minutes sessions = Finite 240 \<longrightarrow>
        calculateSystemLoad sessions = Finite 100)"
proof -
  define p where "p = load_percent (accumulated_minutes sessions)"
  have eq: "calculateSystemLoad sessions
              = Math_max2 (Finite 0) (Math_min2 (Finite 100) (Math_round p))"
    unfolding p_def by (rule calculateSystemLoad_eq)
  have cases: "calculateSystemLoad sessions
     = (case p of
          Finite x \<Rightarrow> Finite (of_int (max 0 (min 100 \<lfloor>x + 1 / 2\<rfloor>)))
        | PosInf \<Rightarrow> Finite 100
        | NegInf \<Rightarrow> Finite 0
        | NotANumber \<Rightarrow> NotANumber)"
    unfolding eq by (rule clamp_round)
  have rounded: "p = Finite x \<longrightarrow>
        (\<exists>n. of_int n \<le> x + 1 / 2 \<and> x + 1 / 2 < of_int n + 1
           \<and> calculateSystemLoad sessions = Finite (of_int (max 0 (min 100 n))))"
  proof
    assume px: "p = Finite x"
    have "of_int \<lfloor>x + 1 / 2\<rfloor> \<le> x + 1 / 2" by (rule of_int_floor_le)
    moreover have "x + 1 / 2 < of_int \<lfloor>x + 1 / 2\<rfloor> + 1" by linarith
    moreover have "calculateSystemLoad sessions
                     = Finite (of_int (max 0 (min 100 \<lfloor>x + 1 / 2\<rfloor>)))"
      using cases px by simp
    ultimately show "\<exists>n. of_int n \<le> x + 1 / 2 \<and> x + 1 / 2 < of_int n + 1
           \<and> calculateSystemLoad sessions = Finite (of_int (max 0 (min 100 n)))"
      by blast
  qed
  have range: "p \<noteq> NotANumber \<Longrightarrow>
        \<exists>n. 0 \<le> n \<and> n \<le> 100 \<and> calculateSystemLoad sessions = Finite (of_int n)"
  proof -
    assume nn: "p \<noteq> NotANumber"
    show ?thesis
    proof (cases p)
      case (Finite y)
      have "0 \<le> max 0 (min 100 \<lfloor>y + 1 / 2\<rfloor>)" "max 0 (min 100 \<lfloor>y + 1 / 2\<rfloor>) \<le> 100"
        by simp_all
      moreover have "calculateSystemLoad sessions
                       = Finite (of_int (max 0 (min 100 \<lfloor>y + 1 / 2\<rfloor>)))"
        using cases Finite by simp
      ultimately show ?thesis by blast
    next
      case PosInf
      with cases have "calculateSystemLoad sessions = Finite (of_int 100)" by simp
      then show ?thesis by (intro exI [of _ 100]) simp
    next
      case NegInf
      with cases have "calculateSystemLoad sessions = Finite (of_int 0)" by simp
      then show ?thesis by (intro exI [of _ 0]) simp
    next
      case NotANumber
      with nn show ?thesis by simp
    qed
  qed
  have total: "calculateSystemLoad sessions = NotANumber
        \<or> (\<exists>n. 0 \<le> n \<and> n \<le> 100 \<and> calculateSystemLoad sessions = Finite (of_int n))"
  proof (cases "p = NotANumber")
    case True
    with cases show ?thesis by simp
  next
    case False
    from range [OF this] show ?thesis by blast
  qed
  have bounded: "(\<forall>s\<in>set sessions. \<bar>or_zero (duration_minutes s)\<bar> \<le> 2 ^ 53) \<longrightarrow>
        (\<exists>n. 0 \<le> n \<and> n \<le> 100 \<and> calculateSystemLoad sessions = Finite (of_int n))"
  proof
    assume b: "\<forall>s\<in>set sessions. \<bar>or_zero (duration_minutes s)\<bar> \<le> 2 ^ 53"
    have "accumulated_minutes sessions \<noteq> NotANumber"
      unfolding accumulated_minutes_def by (rule accumulated_not_nan [OF b]) simp
    then have "p \<noteq> NotANumber" unfolding p_def by (rule load_percent_not_nan)
    then show "\<exists>n. 0 \<le> n \<and> n \<le> 100 \<and> calculateSystemLoad sessions = Finite (of_int n)"
      by (rule range)
  qed
  have full: "accumulated_minutes sessions = Finite 240 \<longrightarrow>
        calculateSystemLoad sessions = Finite 100"
  proof
    assume "accumulated_minutes sessions = Finite 240"
    then have "p = Finite 100" by (simp add: p_def load_percent_240)
    with cases show "calculateSystemLoad sessions = Finite 100" by simp
  qed
  from eq rounded total bounded full show ?thesis unfolding p_def by blast
qed

theorem calculateSystemLoad_percentage_witness:
  "calculateSystemLoad example_shallow = Finite 1
   \<and> calculateSystemLoad example_full = Finite 100
   \<and> calculateSystemLoad example_deep = Finite 58
   \<and> calculateSystemLoad example_day = Finite 54"
proof -
  have acc_s: "accumulated_minutes example_shallow
                 = Finite (2026619832316723 / 562949953421312)"
    by (simp add: accumulated_minutes_def example_shallow_def load_bearing_def
          load_contribution_def load_factor_def duration_number_def or_zero_def double_eval)
  have pct_s: "load_percent (Finite (2026619832316723 / 562949953421312))
                 = Finite (6755399441055743 / 4503599627370496)"
    by (simp add: load_percent_def double_eval)
  have b_s: "\<forall>s\<in>set example_shallow. \<bar>or_zero (duration_minutes s)\<bar> \<le> 2 ^ 53"
    by (simp add: example_shallow_def or_zero_def)
  note inst_s = calculateSystemLoad_percentage
    [of example_shallow "6755399441055743 / 4503599627370496"]
  from inst_s acc_s pct_s obtain n :: int
    where n: "(of_int n :: rat) \<le> 6755399441055743 / 4503599627370496 + 1 / 2"
             "(6755399441055743 / 4503599627370496 + 1 / 2 :: rat) < of_int n + 1"
             "calculateSystemLoad example_shallow = Finite (of_int (max 0 (min 100 n)))"
    by auto
  from n(1) have "(of_int n :: rat) < of_int 2" by simp
  then have "n < 2" by (simp only: of_int_less_iff)
  moreover from n(2) have "(of_int 0 :: rat) < of_int n" by simp
  then have "0 < n" by (simp only: of_int_less_iff)
  ultimately have "n = 1" by simp
  with n(3) have shallow: "calculateSystemLoad example_shallow = Finite 1" by simp
  from inst_s b_s have "\<exists>n. 0 \<le> n \<and> n \<le> 100
      \<and> calculateSystemLoad example_shallow = Finite (of_int n)"
    by blast
  have acc_f: "accumulated_minutes example_full = Finite 240"
    by (simp add: accumulated_minutes_def example_full_def load_bearing_def
          load_contribution_def load_factor_def duration_number_def or_zero_def double_eval)
  with calculateSystemLoad_percentage [of example_full 0]
  have full: "calculateSystemLoad example_full = Finite 100" by blast
  have acc_d: "accumulated_minutes example_deep = Finite 139"
    by (simp add: accumulated_minutes_def example_deep_def load_bearing_def
          load_contribution_def load_factor_def duration_number_def or_zero_def double_eval)
  have pct_d: "load_percent (Finite 139) = Finite (4075523100289707 / 70368744177664)"
    by (simp add: load_percent_def double_eval)
  from calculateSystemLoad_percentage [of example_deep 0]
  have "calculateSystemLoad example_deep
          = Math_max2 (Finite 0)
              (Math_min2 (Finite 100) (Math_round (load_percent (accumulated_minutes example_deep))))"
    by blast
  then have deep: "calculateSystemLoad example_deep = Finite 58"
    unfolding acc_d pct_d by (simp add: floor_rat_numeral_div)
  have acc_e: "accumulated_minutes example_day = Finite 130"
    by (simp add: accumulated_minutes_def example_day_def load_bearing_def
          load_contribution_def load_factor_def duration_number_def or_zero_def double_eval)
  have pct_e: "load_percent (Finite 130) = Finite (7623280619246933 / 140737488355328)"
    by (simp add: load_percent_def double_eval)
  from calculateSystemLoad_percentage [of example_day 0]
  have "calculateSystemLoad example_day
          = Math_max2 (Finite 0)
              (Math_min2 (Finite 100) (Math_round (load_percent (accumulated_minutes example_day))))"
    by blast
  then have day: "calculateSystemLoad example_day = Finite 54"
    unfolding acc_e pct_e by (simp add: floor_rat_numeral_div)
  from shallow full deep day show ?thesis by blast
qed

section \<open>Date helpers: properties\<close>

text \<open>
  Claim C8. The week-start helper returns the Monday on or before the date: a date whose
  weekday \<open>w\<close> is Monday = 1 .. Saturday = 6 moves back by \<open>w - 1\<close> days, a Sunday moves
  back by six days; the result is a Monday and lies at most 6 days before the input.
\<close>

theorem mondayOfWeek_monday:
  "getDay (mondayOfWeek d) = 1
   \<and> mondayOfWeek d \<le> d \<and> d - mondayOfWeek d \<le> 6
   \<and> (getDay d = 0 \<longrightarrow> mondayOfWeek d = d - 6)
   \<and> (getDay d \<noteq> 0 \<longrightarrow> mondayOfWeek d = d - (getDay d - 1))"
proof -
  have range: "0 \<le> getDay d" "getDay d \<le> 6"
    by (simp_all add: getDay_def)
  have sun: "getDay d = 0 \<longrightarrow> mondayOfWeek d = d - 6"
    by (simp add: mondayOfWeek_def Let_def)
  have oth: "getDay d \<noteq> 0 \<longrightarrow> mondayOfWeek d = d - (getDay d - 1)"
    by (simp add: mondayOfWeek_def Let_def)
  have mon: "getDay (mondayOfWeek d) = 1"
  proof (cases "getDay d = 0")
    case True
    then have "(d + 4) mod 7 = 0" by (simp add: getDay_def)
    then have "(d - 6 + 4) mod 7 = 1" by presburger
    with True sun show ?thesis by (simp add: getDay_def)
  next
    case False
    have "(d - ((d + 4) mod 7 - 1) + 4) mod 7 = 1" by presburger
    with False oth show ?thesis by (simp add: getDay_def)
  qed
  have le: "mondayOfWeek d \<le> d" "d - mondayOfWeek d \<le> 6"
    using range sun oth by (cases "getDay d = 0"; simp)+
  from mon le sun oth show ?thesis by blast
qed

theorem mondayOfWeek_monday_witness:
  "mondayOfWeek 20089 = 20087 \<and> mondayOfWeek 20093 = 20087 \<and> getDay 20087 = 1"
proof -
  have wed: "getDay 20089 \<noteq> 0" and sun: "getDay 20093 = 0"
    by (simp_all add: getDay_def)
  from mondayOfWeek_monday [of 20089] wed
  have a: "mondayOfWeek 20089 = 20089 - (getDay 20089 - 1)" by blast
  from mondayOfWeek_monday [of 20093] sun
  have b: "mondayOfWeek 20093 = 20093 - 6" by blast
  from a b show ?thesis by (simp add: getDay_def)
qed

text \<open>
  Claim C9. For a pair of sleep start and end timestamps the duration in minutes is end
  minus start, floored to whole minutes and clamped at zero: an end at or before the start
  gives 0, and the result is never negative.
\<close>

theorem calculateDuration_clamped:
  "calculateDuration (Stamp s) (Stamp e) = Num (max 0 ((e - s) div 60000))
   \<and> (e \<le> s \<longrightarrow> calculateDuration (Stamp s) (Stamp e) = Num 0)
   \<and> (\<exists>n. calculateDuration (Stamp s) (Stamp e) = Num n \<and> 0 \<le> n)"
proof -
  have "\<lfloor>(of_int (e - s) :: rat) / 1000 / 60\<rfloor> = (e - s) div 60000"
    using floor_rat_div [of "e - s" 60000]
    by simp
  then have eq: "calculateDuration (Stamp s) (Stamp e) = Num (max 0 ((e - s) div 60000))"
    by (simp add: calculateDuration_def Let_def)
  have neg: "e \<le> s \<longrightarrow> (e - s) div 60000 \<le> 0"
    by (simp add: div_nonpos_pos_le0)
  from eq neg show ?thesis by auto
qed

theorem calculateDuration_clamped_witness:
  "calculateDuration (Stamp 1735772400000) (Stamp 1735801230000) = Num 480
   \<and> calculateDuration (Stamp 1735801230000) (Stamp 1735772400000) = Num 0"
proof -
  have le: "(1735772400000 :: int) \<le> 1735801230000" by simp
  from calculateDuration_clamped [of 1735772400000 1735801230000]
  have a: "calculateDuration (Stamp 1735772400000) (Stamp 1735801230000)
             = Num (max 0 ((1735801230000 - 1735772400000) div 60000))" by blast
  from calculateDuration_clamped [of 1735801230000 1735772400000] le
  have b: "calculateDuration (Stamp 1735801230000) (Stamp 1735772400000) = Num 0" by blast
  from a b show ?thesis by simp
qed

section \<open>Calendar heatmap: properties\<close>





















section \<open>Dashboard: properties\<close>







section \<open>Sleep versus deep work: properties\<close>

lemma length_padStart: "targetLength \<le> length (padStart targetLength c s)"
  by (simp add: padStart_def)

lemma svd_line_absent_distinct:
  assumes "row_date r = row_date r'" and "deep_minutes r = deep_minutes r'"
    and "sleep_minutes r = None" and "sleep_minutes r' = Some m"
  shows "svd_line r \<noteq> svd_line r'"
proof -
  have "length (padStart 4 CHR '' '' (String_js m)) \<noteq> length ''  -''"
    using length_padStart [of 4 "CHR '' ''" "String_js m"] by simp
  then have "padStart 4 CHR '' '' (String_js m) \<noteq> ''  -''" by auto
  with assms show ?thesis by (simp add: svd_line_def Let_def)
qed

lemma renderSleepVsDeepwork_order:
  "labels (fst (renderSleepVsDeepwork data)) = map row_date data
   \<and> sleep_data (fst (renderSleepVsDeepwork data)) = map sleep_minutes data
   \<and> deep_data (fst (renderSleepVsDeepwork data)) = map deep_minutes data
   \<and> tl (snd (renderSleepVsDeepwork data)) = map svd_line data"
  by (simp add: renderSleepVsDeepwork_def Let_def)

lemma analytics_day_absent_as_zero:
  assumes "sleep_minutes r = None"
  shows "analytics_day maxSleep maxDeep (r\<lparr>sleep_minutes := Some 0\<rparr>)
           = analytics_day maxSleep maxDeep r"
  using assms by (simp add: analytics_day_def or_zero_def)

text \<open>
  Claim C6 asks that a date without a sleep record be shown differently from a recorded
  sleep of zero minutes. The text renderer does so, the analytics chart does not: for the
  day 2025-01-01 with 30 deep-work minutes, the chart column built for an absent sleep
  record equals the one built for a sleep of 0 minutes (no dot, tooltip "Sleep: 0m"),
  while the text line of \<^verbatim>\<open>renderSleepVsDeepwork\<close> differs.
\<close>

theorem analytics_chart_absent_as_zero:
  "analytics_chart [\<lparr>row_date = ''2025-01-01'', sleep_minutes = None, deep_minutes = 30\<rparr>]
   = analytics_chart [\<lparr>row_date = ''2025-01-01'', sleep_minutes = Some 0, deep_minutes = 30\<rparr>]
   \<and> svd_line \<lparr>row_date = ''2025-01-01'', sleep_minutes = None, deep_minutes = 30\<rparr>
       \<noteq> svd_line \<lparr>row_date = ''2025-01-01'', sleep_minutes = Some 0, deep_minutes = 30\<rparr>"
  using svd_line_absent_distinct
          [of "\<lparr>row_date = ''2025-01-01'', sleep_minutes = None, deep_minutes = 30\<rparr>"
              "\<lparr>row_date = ''2025-01-01'', sleep_minutes = Some 0, deep_minutes = 30\<rparr>" 0]
  by (simp add: analytics_chart_def analytics_day_def or_zero_def Let_def)

section \<open>Biological Engine intake panel: properties\<close>

text \<open>
  The check of \<^verbatim>\<open>requestWater\<close> is passed once, when the dialog opens; a Confirm click
  does not repeat it. Two clicks on Confirm while the first request is still pending raise
  the counter from 7 to 9, although both requests succeed.
\<close>

lemma run_panel_double_click:
  "water_count (panel_intake (run_panel example_panel
      [RequestWater, ConfirmClick ''2025-01-01T10:00:00.000Z'',
       ConfirmClick ''2025-01-01T10:00:00.200Z'',
       PostSettled Resolved, PostSettled Resolved])) = 9"
  by (simp add: run_panel_def example_panel_def requestWater_def confirmAction_click_def
        confirmAction_settled_def)

text \<open>
  Claim C10 says that the water counter of the panel never exceeds 8. It does when a POST
  fails: from 7 glasses, the water button opens the dialog; Confirm raises the counter to
  8 and the request is rejected, which leaves the dialog open; each further Confirm raises
  the counter again without passing the check of \<^verbatim>\<open>requestWater\<close>. Two rejected requests
  give 9, a third confirmation gives 10, which is worth the full 5 water points.
\<close>

theorem run_panel_rejected_post_exceeds_8:
  "water_count (panel_intake (run_panel example_panel
      [RequestWater, ConfirmAction Rejected ''2025-01-01T10:00:00.000Z'',
       ConfirmAction Rejected ''2025-01-01T10:00:05.000Z''])) = 9
   \<and> water_count (panel_intake (run_panel example_panel
      [RequestWater, ConfirmAction Rejected ''2025-01-01T10:00:00.000Z'',
       ConfirmAction Rejected ''2025-01-01T10:00:05.000Z'',
       ConfirmAction Resolved ''2025-01-01T10:00:09.000Z''])) = 10
   \<and> calculateIntakePoints (Some (panel_intake (run_panel example_panel
      [RequestWater, ConfirmAction Rejected ''2025-01-01T10:00:00.000Z'',
       ConfirmAction Rejected ''2025-01-01T10:00:05.000Z'',
       ConfirmAction Resolved ''2025-01-01T10:00:09.000Z'']))) = 5"
  by (simp add: run_panel_def example_panel_def requestWater_def confirmAction_def
        confirmAction_click_def confirmAction_settled_def Let_def
        calculateIntakePoints_def Boolean_js_def floor_rat_numeral_div)

end
